theory Spec2Isabelle
  imports Main
begin

section \<open>JavaScript strings\<close>

text \<open>
  A JavaScript string is a sequence of UTF-16 code units. This development covers the
  code units U+0000 to U+00FF, written as HOL's \<open>char\<close> (the Latin-1 range, where one
  code unit is one character and no case mapping changes the length of a string).
  Text beyond that range is outside the model.
\<close>

definition backslash :: char where
  "backslash = CHR 0x5C"

definition newline :: char where
  "newline = CHR 0x0A"

definition slash :: char where
  "slash = CHR 0x2F"

text \<open>
  \<open>String.prototype.toLowerCase\<close> on one code unit of the range: the ASCII capitals and
  the Latin-1 capitals U+00C0 to U+00DE (without the multiplication sign U+00D7) move up
  by 32; every other unit of the range is its own lower case.
\<close>

definition toLowerCase_unit :: "char \<Rightarrow> char" where
  "toLowerCase_unit c =
     (let n = (of_char c :: nat) in
      if (65 \<le> n \<and> n \<le> 90) \<or> (192 \<le> n \<and> n \<le> 222 \<and> n \<noteq> 215)
      then char_of (n + 32) else c)"

definition toLowerCase :: "string \<Rightarrow> string" where
  "toLowerCase s = map toLowerCase_unit s"

text \<open>
  \<open>String.prototype.trim\<close> removes white space and line terminators from both ends. In
  the range these are TAB, LF, VT, FF, CR, SPACE and NO-BREAK SPACE.
\<close>

definition isWhiteSpace :: "char \<Rightarrow> bool" where
  "isWhiteSpace c \<longleftrightarrow> c \<in> set [CHR 0x09, CHR 0x0A, CHR 0x0B, CHR 0x0C, CHR 0x0D, CHR 0x20, CHR 0xA0]"

definition trim :: "string \<Rightarrow> string" where
  "trim s = rev (dropWhile isWhiteSpace (rev (dropWhile isWhiteSpace s)))"

text \<open>
  \<open>s.split(sep)\<close> for a separator of one code unit: the scan keeps the piece read so
  far and closes it at every separator and at the end, so the result always has one
  piece more than there are separators (the empty string splits into one empty piece).
\<close>

fun split_from :: "char \<Rightarrow> string \<Rightarrow> string \<Rightarrow> string list" where
  "split_from sep piece [] = [piece]"
| "split_from sep piece (c # cs) =
     (if c = sep then piece # split_from sep [] cs
      else split_from sep (piece @ [c]) cs)"

definition str_split :: "char \<Rightarrow> string \<Rightarrow> string list" where
  "str_split sep s = split_from sep [] s"

section \<open>The regular expressions the counter builds\<close>

text \<open>
  The counter builds its pattern as a string and hands it to \<open>new RegExp(source, 'g')\<close>.
  The fragment of the pattern language modelled here is the one these sources use: the
  assertion \<open>\b\<close>, an escaped syntax character, a pattern character that is not a syntax
  character, and a character class of single characters, optionally under \<open>*\<close>.
\<close>

datatype re_term =
    Literal char
  | WordBoundary
  | Class "char list"
  | ClassStar "char list"

text \<open>The syntax characters of the pattern grammar: \<open>^ $ \ . * + ? ( ) [ ] { } |\<close>.\<close>

definition syntax_characters :: "char list" where
  "syntax_characters = ''^$'' @ [backslash] @ ''.*+?()[]{}|''"

text \<open>
  The parser of the fragment. Its first argument is \<open>None\<close> outside a character class and
  \<open>Some cls\<close> inside one, with the members read so far. The result \<open>None\<close> stands for the
  \<open>SyntaxError\<close> that \<open>new RegExp\<close> throws, and also for a pattern outside the fragment.
\<close>

fun parse_pattern :: "char list option \<Rightarrow> string \<Rightarrow> re_term list option" where
  "parse_pattern None [] = Some []"
| "parse_pattern (Some cls) [] = None"
| "parse_pattern None (c # cs) =
     (if c = backslash then
        (case cs of
           [] \<Rightarrow> None
         | d # ds \<Rightarrow>
             if d = CHR ''b'' then map_option (Cons WordBoundary) (parse_pattern None ds)
             else if d \<in> set syntax_characters
               then map_option (Cons (Literal d)) (parse_pattern None ds)
             else None)
      else if c = CHR ''['' then parse_pattern (Some []) cs
      else if c \<in> set syntax_characters then None
      else map_option (Cons (Literal c)) (parse_pattern None cs))"
| "parse_pattern (Some cls) (c # cs) =
     (if c = CHR '']'' then
        (case cs of
           [] \<Rightarrow> Some [Class cls]
         | d # ds \<Rightarrow>
             if d = CHR ''*'' then map_option (Cons (ClassStar cls)) (parse_pattern None ds)
             else map_option (Cons (Class cls)) (parse_pattern None (d # ds)))
      else if c = backslash then
        (case cs of
           [] \<Rightarrow> None
         | d # ds \<Rightarrow>
             if d \<in> set syntax_characters then parse_pattern (Some (cls @ [d])) ds
             else None)
      else if c = CHR ''-'' \<or> c = CHR ''^'' then None
      else parse_pattern (Some (cls @ [c])) cs)"

definition RegExp :: "string \<Rightarrow> re_term list option" where
  "RegExp source = parse_pattern None source"

text \<open>
  \<open>\b\<close> holds at a position when exactly one of the code unit before it and the code unit
  at it is a word character; beyond either end of the text there is no word character.
  Without the \<open>u\<close> and \<open>i\<close> flags the word characters are the ASCII letters, the digits and
  the underscore.
\<close>

definition isWordChar :: "char option \<Rightarrow> bool" where
  "isWordChar x =
     (case x of
        None \<Rightarrow> False
      | Some c \<Rightarrow>
          (let n = (of_char c :: nat) in
           (97 \<le> n \<and> n \<le> 122) \<or> (65 \<le> n \<and> n \<le> 90) \<or> (48 \<le> n \<and> n \<le> 57) \<or> n = 95))"

definition at_boundary :: "char option \<Rightarrow> string \<Rightarrow> bool" where
  "at_boundary prev rest =
     (isWordChar prev \<noteq> isWordChar (case rest of [] \<Rightarrow> None | c # _ \<Rightarrow> Some c))"

text \<open>
  A position in the text is the code unit before it (\<open>None\<close> at the start) together with
  the text from it on. \<open>matcher ts prev rest\<close> runs the pattern at that position and gives
  the text matched there. The starred class is greedy: it takes one more member while it
  can and falls back when what follows the class does not match.
\<close>

fun matcher :: "re_term list \<Rightarrow> char option \<Rightarrow> string \<Rightarrow> string option" where
  "matcher [] prev rest = Some []"
| "matcher (Literal c # ts) prev [] = None"
| "matcher (Literal c # ts) prev (x # xs) =
     (if x = c then map_option (Cons x) (matcher ts (Some x) xs) else None)"
| "matcher (WordBoundary # ts) prev rest =
     (if at_boundary prev rest then matcher ts prev rest else None)"
| "matcher (Class cls # ts) prev [] = None"
| "matcher (Class cls # ts) prev (x # xs) =
     (if x \<in> set cls then map_option (Cons x) (matcher ts (Some x) xs) else None)"
| "matcher (ClassStar cls # ts) prev [] = matcher ts prev []"
| "matcher (ClassStar cls # ts) prev (x # xs) =
     (if x \<in> set cls then
        (case matcher (ClassStar cls # ts) (Some x) xs of
           Some m \<Rightarrow> Some (x # m)
         | None \<Rightarrow> matcher ts prev (x # xs))
      else matcher ts prev (x # xs))"

text \<open>
  \<open>text.match(pattern)\<close> for a pattern with the \<open>g\<close> flag: starting at \<open>lastIndex = 0\<close>, the
  pattern is tried at each position from \<open>lastIndex\<close> on; a match is recorded and
  \<open>lastIndex\<close> moves to its end, or one unit further when the match is empty. The scan
  ends when no position up to the end of the text matches.
\<close>

function match_from :: "re_term list \<Rightarrow> char option \<Rightarrow> string \<Rightarrow> string list" where
  "match_from ts prev rest =
     (case matcher ts prev rest of
        None \<Rightarrow> (case rest of [] \<Rightarrow> [] | x # xs \<Rightarrow> match_from ts (Some x) xs)
      | Some m \<Rightarrow>
          if m = [] then m # (case rest of [] \<Rightarrow> [] | x # xs \<Rightarrow> match_from ts (Some x) xs)
          else m # match_from ts (Some (last m)) (drop (length m) rest))"
  by pat_completeness auto
termination
proof (relation "measure (\<lambda>(ts, prev, rest). length rest)")
  have matcher_length: "length m \<le> length rest" if "matcher ts prev rest = Some m"
    for ts prev rest m
    using that
    by (induction ts prev rest arbitrary: m rule: matcher.induct)
       (auto split: if_splits option.splits)
  fix ts :: "re_term list" and prev :: "char option" and rest m :: string
  assume "matcher ts prev rest = Some m" and "m \<noteq> []"
  then have "m \<noteq> []" and "length m \<le> length rest"
    by (simp_all add: matcher_length)
  then have "length rest - length m < length rest"
    by (cases m) simp_all
  then show "((ts, Some (last m), drop (length m) rest), (ts, prev, rest))
      \<in> measure (\<lambda>(ts, prev, rest). length rest)"
    by simp
qed simp_all

text \<open>The method returns \<open>null\<close> when nothing matched, and the array of matches otherwise.\<close>

definition str_match :: "string \<Rightarrow> re_term list \<Rightarrow> string list option" where
  "str_match s pattern =
     (let ms = match_from pattern None s in if ms = [] then None else Some ms)"

section \<open>The platform\<close>

text \<open>
  The file system calls of \<open>fs-extra\<close> either give a value or throw; a thrown error is the
  left summand. The error code \<open>ENOENT\<close> is kept apart because the handlers test for it.
  \<open>path.join\<close> and \<open>path.basename\<close> belong to the platform and are taken as they come.
\<close>

datatype fs_error = ENOENT | OtherError

datatype stats = IsFile | IsDirectory | IsOther

record node_env =
  readFile :: "string \<Rightarrow> fs_error + string"
  stat :: "string \<Rightarrow> fs_error + stats"
  readdir :: "string \<Rightarrow> fs_error + string list"
  path_join :: "string \<Rightarrow> string \<Rightarrow> string"
  path_basename :: "string \<Rightarrow> string"

text \<open>
  The \<open>results\<close> object is a plain object used as a dictionary from group names to counts;
  the model keeps its own data properties. An assignment \<open>results[key] = n\<close> creates or
  overwrites the own property \<open>key\<close>, except for the key \<open>__proto__\<close>: that assignment
  reaches the accessor of \<open>Object.prototype\<close>, which ignores a number and creates nothing.
  A read \<open>results[key]\<close> gives the own property where there is one; \<open>None\<close> stands for
  whatever the prototype chain gives instead, which is never a count.
\<close>

type_synonym js_object = "string \<rightharpoonup> nat"

definition obj_assign :: "js_object \<Rightarrow> string \<Rightarrow> nat \<Rightarrow> js_object" where
  "obj_assign obj key n = (if key = ''__proto__'' then obj else obj(key \<mapsto> n))"

definition obj_get :: "js_object \<Rightarrow> string \<Rightarrow> nat option" where
  "obj_get obj key = (if key = ''__proto__'' then None else obj key)"

section \<open>countOccurrences\<close>

type_synonym term_groups = "(string \<times> string list) list"

text \<open>
  \<open>s.replace(/[.*+?^${}()|[\]\\]/g, '\\$&')\<close>: every code unit of the class is replaced
  by a backslash followed by itself.
\<close>

definition escaped_characters :: "char list" where
  "escaped_characters = ''.*+?^${}()|[]'' @ [backslash]"

fun escape_metacharacters :: "string \<Rightarrow> string" where
  "escape_metacharacters [] = []"
| "escape_metacharacters (c # cs) =
     (if c \<in> set escaped_characters then backslash # c # escape_metacharacters cs
      else c # escape_metacharacters cs)"

text \<open>
  The pattern source of line 44:
  \<open>'\\b' + term.toLowerCase().replace(...) + '\\b[.,!?:;"\')\\]\\}]*'\<close>.
\<close>

definition pattern_source :: "string \<Rightarrow> string" where
  "pattern_source tm =
     [backslash, CHR ''b''] @ escape_metacharacters (toLowerCase tm) @
     [backslash, CHR ''b''] @ ''[.,!?:;'' @ [CHR 0x22, CHR 0x27] @ '')'' @
     [backslash, CHR '']'', backslash, CHR ''}''] @ '']*''"

text \<open>
  The inner loop over the terms of one group, with the running \<open>totalCount\<close>. \<open>None\<close> is
  an exception thrown by \<open>new RegExp\<close>, which leaves both loops for the handler.
\<close>

fun count_terms :: "string \<Rightarrow> string list \<Rightarrow> nat \<Rightarrow> nat option" where
  "count_terms lowerContent [] totalCount = Some totalCount"
| "count_terms lowerContent (tm # tms) totalCount =
     (case RegExp (pattern_source tm) of
        None \<Rightarrow> None
      | Some pattern \<Rightarrow>
          (let matches = str_match lowerContent pattern in
           count_terms lowerContent tms
             (totalCount + (case matches of Some ms \<Rightarrow> length ms | None \<Rightarrow> 0))))"

text \<open>The outer loop over the groups, with the \<open>results\<close> object built so far.\<close>

fun count_groups :: "string \<Rightarrow> term_groups \<Rightarrow> js_object \<Rightarrow> js_object option" where
  "count_groups lowerContent [] results = Some results"
| "count_groups lowerContent ((groupName, terms) # groups) results =
     (case count_terms lowerContent terms 0 of
        None \<Rightarrow> None
      | Some totalCount \<Rightarrow>
          count_groups lowerContent groups (obj_assign results groupName totalCount))"

text \<open>
  The function itself: any exception inside the \<open>try\<close> block, from reading the file or
  from building a pattern, ends in the handler, which returns \<open>null\<close> (here \<open>None\<close>). The
  messages written to the console are not part of the model.
\<close>

definition countOccurrences :: "node_env \<Rightarrow> string \<Rightarrow> term_groups \<Rightarrow> js_object option" where
  "countOccurrences env filepath termGroups =
     (case readFile env filepath of
        Inl error \<Rightarrow> None
      | Inr content \<Rightarrow>
          (let lowerContent = toLowerCase content in
           count_groups lowerContent termGroups Map.empty))"

section \<open>readSearchTerms\<close>

text \<open>
  In \<open>filter(line => line)\<close> a string counts as true exactly when it is not empty.
\<close>

definition readSearchTerms :: "node_env \<Rightarrow> string \<Rightarrow> term_groups option" where
  "readSearchTerms env termsFilepath =
     (case readFile env termsFilepath of
        Inl error \<Rightarrow> None
      | Inr content \<Rightarrow>
          Some (map (\<lambda>line. (line, map trim (str_split slash line)))
                 (filter (\<lambda>line. line \<noteq> [])
                   (map trim (str_split newline content)))))"

section \<open>getFilesToProcess\<close>

text \<open>
  The default \<open>Array.prototype.sort\<close> orders strings by their code units. The order is
  total and equal strings cannot be told apart, so every sorting algorithm gives the same
  array; insertion is used here.
\<close>

fun code_unit_le :: "string \<Rightarrow> string \<Rightarrow> bool" where
  "code_unit_le [] ys = True"
| "code_unit_le (x # xs) [] = False"
| "code_unit_le (x # xs) (y # ys) =
     (if x = y then code_unit_le xs ys else (of_char x :: nat) < of_char y)"

fun insert_sorted :: "string \<Rightarrow> string list \<Rightarrow> string list" where
  "insert_sorted x [] = [x]"
| "insert_sorted x (y # ys) =
     (if code_unit_le x y then x # y # ys else y # insert_sorted x ys)"

definition js_sort :: "string list \<Rightarrow> string list" where
  "js_sort xs = foldr insert_sorted xs []"

text \<open>
  The callback handed to \<open>filter\<close> is an \<open>async\<close> function: a call returns a promise at
  once, fulfilled later with \<open>isFile()\<close> or rejected with the error of \<open>fs.stat\<close>.
  \<open>Array.prototype.filter\<close> converts what the callback returns to a boolean, and a promise
  is an object, so the conversion gives true whatever the promise settles to. The promises
  are never awaited; what the runtime does about a rejection nobody handles is outside
  the model.
\<close>

datatype 'a promise = Fulfilled 'a | Rejected fs_error

definition is_file_async :: "node_env \<Rightarrow> string \<Rightarrow> bool promise" where
  "is_file_async env filepath =
     (case stat env filepath of
        Inl error \<Rightarrow> Rejected error
      | Inr stats \<Rightarrow> Fulfilled (stats = IsFile))"

fun ToBoolean :: "'a promise \<Rightarrow> bool" where
  "ToBoolean (Fulfilled v) = True"
| "ToBoolean (Rejected error) = True"

definition getFilesToProcess :: "node_env \<Rightarrow> string \<Rightarrow> string list" where
  "getFilesToProcess env inputPath =
     (case stat env inputPath of
        Inl error \<Rightarrow> []
      | Inr stats \<Rightarrow>
          if stats = IsFile then [inputPath]
          else if stats = IsDirectory then
            (case readdir env inputPath of
               Inl error \<Rightarrow> []
             | Inr files \<Rightarrow>
                 (let filePaths =
                        filter (\<lambda>filepath. ToBoolean (is_file_async env filepath))
                          (map (\<lambda>file. path_join env inputPath file) files)
                  in js_sort filePaths))
          else [])"

section \<open>writeResultsToCsv and main\<close>







section \<open>The matching rule in the words of the specification\<close>

text \<open>
  The specification describes the rule for one alternative as: a left word boundary, the
  literal term, a right word boundary, then zero or more characters of the closing
  punctuation \<open>. , ! ? : ; " ' ) ] }\<close>. \<open>whole_word_rule\<close> is that rule, written
  down directly and not parsed from a pattern string, and \<open>whole_word_count\<close> is the number
  of occurrences a global scan of a text finds for one alternative on its own.
\<close>

definition closing_punctuation :: "char list" where
  "closing_punctuation = ''.,!?:;'' @ [CHR 0x22, CHR 0x27] @ '')]}''"

definition whole_word_rule :: "string \<Rightarrow> re_term list" where
  "whole_word_rule lit =
     WordBoundary # map Literal lit @ [WordBoundary, ClassStar closing_punctuation]"

definition whole_word_count :: "string \<Rightarrow> string \<Rightarrow> nat" where
  "whole_word_count text alt =
     length (match_from (whole_word_rule (toLowerCase alt)) None text)"

text \<open>Joining pieces with a separator between them, the inverse of splitting.\<close>

fun join_with :: "char \<Rightarrow> string list \<Rightarrow> string" where
  "join_with sep [] = []"
| "join_with sep [p] = p"
| "join_with sep (p # q # ps) = p @ sep # join_with sep (q # ps)"


text \<open>
  The enumeration of files in the words of the specification: the path itself when it is
  a regular file, the sorted regular files directly inside it when it is a directory, and
  nothing otherwise.
\<close>

definition regular_files_at :: "node_env \<Rightarrow> string \<Rightarrow> string list" where
  "regular_files_at env inputPath =
     (case stat env inputPath of
        Inl error \<Rightarrow> []
      | Inr IsFile \<Rightarrow> [inputPath]
      | Inr IsDirectory \<Rightarrow>
          (case readdir env inputPath of
             Inl error \<Rightarrow> []
           | Inr files \<Rightarrow>
               js_sort (filter (\<lambda>filepath. stat env filepath = Inr IsFile)
                         (map (\<lambda>file. path_join env inputPath file) files)))
      | Inr IsOther \<Rightarrow> [])"

section \<open>Sample file systems\<close>

text \<open>
  A file system given as a list of paths with what is found there: a regular file with
  its content, a directory with the names \<open>fs.readdir\<close> lists, or a device. Reading a
  path that is absent fails with \<open>ENOENT\<close>, reading a directory or a device fails with
  another error. On the relative paths used below, \<open>path.join\<close> puts one slash between
  its arguments and \<open>path.basename\<close> is what follows the last slash.
\<close>

datatype fs_node = File string | Dir "string list" | Device

definition sample_env :: "(string \<times> fs_node) list \<Rightarrow> node_env" where
  "sample_env tree =
     \<lparr>readFile = (\<lambda>p. case map_of tree p of
                        None \<Rightarrow> Inl ENOENT
                      | Some (File content) \<Rightarrow> Inr content
                      | Some (Dir names) \<Rightarrow> Inl OtherError
                      | Some Device \<Rightarrow> Inl OtherError),
      stat = (\<lambda>p. case map_of tree p of
                    None \<Rightarrow> Inl ENOENT
                  | Some (File content) \<Rightarrow> Inr IsFile
                  | Some (Dir names) \<Rightarrow> Inr IsDirectory
                  | Some Device \<Rightarrow> Inr IsOther),
      readdir = (\<lambda>p. case map_of tree p of
                       None \<Rightarrow> Inl ENOENT
                     | Some (File content) \<Rightarrow> Inl OtherError
                     | Some (Dir names) \<Rightarrow> Inr names
                     | Some Device \<Rightarrow> Inl OtherError),
      path_join = (\<lambda>dir file. dir @ [slash] @ file),
      path_basename = (\<lambda>p. last (str_split slash p))\<rparr>"

definition cat_env :: node_env where
  "cat_env = sample_env
     [(''terms.txt'', File (''cat'' @ [newline] @ ''cat/cats'' @ [newline])),
      (''lower.txt'', File ''the cat sat. the cat ran! cats everywhere.''),
      (''mixed.txt'', File ''The Cat sat. The cat ran! cats everywhere.'')]"

definition cpp_env :: node_env where
  "cpp_env = sample_env
     [(''sentence.txt'', File ''c++ is fast''),
      (''token.txt'', File ''c++''),
      (''dotted.txt'', File ''a.c, abc'')]"


definition york_env :: node_env where
  "york_env = sample_env [(''notes.txt'', File ''new york, new jersey'')]"

definition blank_lines_env :: node_env where
  "blank_lines_env = sample_env
     [(''terms.txt'', File (''cat'' @ [newline, newline] @ ''dog'' @ [newline])),
      (''spaced.txt'', File ('' Cat / cats '' @ [newline] @ ''   '' @ [newline] @ ''a//b''))]"

definition batch_env :: node_env where
  "batch_env = sample_env
     [(''d'', Dir [''sub'', ''b.txt'', ''a.txt'']),
      (''d/a.txt'', File ''the cat''),
      (''d/b.txt'', File ''Cats, cats.''),
      (''d/sub'', Dir []),
      (''terms.txt'', File ''cat/cats'')]"

section \<open>The pattern the counter compiles\<close>

text \<open>
  The class escaped by \<open>replace\<close> holds exactly the syntax characters of the pattern
  grammar, so an escaped term parses as the sequence of its own characters, whatever it
  contains, and \<open>new RegExp\<close> never throws on a pattern the counter builds.
\<close>

lemma escaped_are_syntax: "set escaped_characters = set syntax_characters"
  by (auto simp: escaped_characters_def syntax_characters_def)

lemma b_not_syntax:
  "CHR ''b'' \<notin> set syntax_characters"
  "CHR ''['' \<in> set syntax_characters"
  "backslash \<in> set syntax_characters"
  by (simp_all add: syntax_characters_def backslash_def)

lemma parse_escaped:
  "parse_pattern None (escape_metacharacters s @ rest) =
     map_option ((@) (map Literal s)) (parse_pattern None rest)"
proof (induction s)
  case Nil
  show ?case by (simp add: option.map_ident)
next
  case (Cons c cs)
  show ?case
  proof (cases "c \<in> set syntax_characters")
    case True
    then have "c \<noteq> CHR ''b''" using b_not_syntax by auto
    with True show ?thesis
      by (simp add: escaped_are_syntax Cons.IH option.map_comp comp_def)
  next
    case False
    then have "c \<noteq> backslash" "c \<noteq> CHR ''[''" using b_not_syntax by auto
    with False show ?thesis
      by (simp add: escaped_are_syntax Cons.IH option.map_comp comp_def)
  qed
qed

lemma parse_tail:
  "parse_pattern None ([backslash, CHR ''b''] @ ''[.,!?:;'' @ [CHR 0x22, CHR 0x27] @ '')'' @
     [backslash, CHR '']'', backslash, CHR ''}''] @ '']*'') = Some [WordBoundary, ClassStar closing_punctuation]"
  by (simp add: backslash_def syntax_characters_def closing_punctuation_def)

lemma RegExp_pattern_source:
  "RegExp (pattern_source tm) = Some (whole_word_rule (toLowerCase tm))"
  unfolding RegExp_def pattern_source_def whole_word_rule_def
  using parse_escaped[of "toLowerCase tm"] parse_tail
  by (simp add: b_not_syntax)

section \<open>The loops of the counter\<close>

lemma str_match_count:
  "(case str_match s pattern of Some ms \<Rightarrow> length ms | None \<Rightarrow> 0) = length (match_from pattern None s)"
  by (simp add: str_match_def Let_def)

lemma count_terms_sum:
  "count_terms lc tms n = Some (n + sum_list (map (whole_word_count lc) tms))"
  by (induction tms arbitrary: n)
     (simp_all add: RegExp_pattern_source str_match_count whole_word_count_def Let_def)

lemma count_groups_fold:
  "count_groups lc groups results =
     Some (foldl (\<lambda>res (groupName, terms).
             obj_assign res groupName (sum_list (map (whole_word_count lc) terms)))
           results groups)"
  by (induction groups arbitrary: results) (auto simp: count_terms_sum)

section \<open>Lower case, splitting and trimming\<close>

lemma toLowerCase_unit_idem: "toLowerCase_unit (toLowerCase_unit c) = toLowerCase_unit c"
  by (auto simp: toLowerCase_unit_def Let_def of_char_of)

lemma toLowerCase_idem: "toLowerCase (toLowerCase s) = toLowerCase s"
  by (simp add: toLowerCase_def toLowerCase_unit_idem)

lemma split_from_length: "length (split_from sep piece s) = Suc (count_list s sep)"
  by (induction s arbitrary: piece) simp_all

lemma split_from_Cons: "\<exists>p ps. split_from sep piece s = p # ps"
  by (cases "split_from sep piece s") (use split_from_length[of sep piece s] in auto)

lemma join_split_from: "join_with sep (split_from sep piece s) = piece @ s"
proof (induction s arbitrary: piece)
  case Nil
  show ?case by simp
next
  case (Cons c cs)
  obtain p ps where eq: "split_from sep [] cs = p # ps"
    using split_from_Cons by blast
  show ?case
  proof (cases "c = sep")
    case True
    with Cons.IH[of "[]"] eq show ?thesis by simp
  next
    case False
    with Cons.IH[of "piece @ [c]"] show ?thesis by simp
  qed
qed

lemma split_from_no_sep:
  "sep \<notin> set piece \<Longrightarrow> \<forall>p \<in> set (split_from sep piece s). sep \<notin> set p"
proof (induction s arbitrary: piece)
  case Nil
  then show ?case by simp
next
  case (Cons c cs)
  have "\<forall>p \<in> set (split_from sep [] cs). sep \<notin> set p"
    using Cons.IH[of "[]"] by simp
  moreover have "c \<noteq> sep \<Longrightarrow> \<forall>p \<in> set (split_from sep (piece @ [c]) cs). sep \<notin> set p"
    using Cons.IH[of "piece @ [c]"] Cons.prems by simp
  ultimately show ?case
    using Cons.prems by simp
qed

lemma str_split_length: "length (str_split sep s) = Suc (count_list s sep)"
  by (simp add: str_split_def split_from_length)

lemma join_str_split: "join_with sep (str_split sep s) = s"
  by (simp add: str_split_def join_split_from)

lemma str_split_no_sep: "\<forall>p \<in> set (str_split sep s). sep \<notin> set p"
  unfolding str_split_def by (rule split_from_no_sep) simp

lemma trim_idem: "trim (trim s) = trim s"
proof -
  define t where "t = dropWhile isWhiteSpace s"
  define u where "u = rev (dropWhile isWhiteSpace (rev t))"
  have "rev t = takeWhile isWhiteSpace (rev t) @ rev u"
    by (simp add: u_def)
  then have t_eq: "t = u @ rev (takeWhile isWhiteSpace (rev t))"
    by (metis rev_append rev_rev_ident)
  have "dropWhile isWhiteSpace u = u"
  proof (cases u)
    case Nil
    then show ?thesis by simp
  next
    case (Cons x xs)
    with t_eq have "t = x # (xs @ rev (takeWhile isWhiteSpace (rev t)))" by simp
    then have "t \<noteq> []" and "hd t = x" by (metis list.distinct(1), metis list.sel(1))
    then have "\<not> isWhiteSpace x"
      unfolding t_def using hd_dropWhile by metis
    with Cons show ?thesis by simp
  qed
  then have "trim u = rev (dropWhile isWhiteSpace (rev u))"
    by (simp add: trim_def)
  also have "\<dots> = u"
    by (simp add: u_def)
  finally show ?thesis
    by (simp add: trim_def u_def t_def)
qed

section \<open>What a match of the rule looks like\<close>





section \<open>The loop over the files\<close>


section \<open>The counter on a readable file\<close>

lemma countOccurrences_readable:
  "readFile env filepath = Inr content \<Longrightarrow>
     countOccurrences env filepath termGroups =
       Some (foldl (\<lambda>res (groupName, terms).
               obj_assign res groupName
                 (sum_list (map (whole_word_count (toLowerCase content)) terms)))
             Map.empty termGroups)"
  by (simp add: countOccurrences_def count_groups_fold)

lemma foldl_assign_lookup:
  assumes "(g, tms) \<in> set groups"
      and "\<forall>x \<in> set groups. fst x = g \<longrightarrow> F (snd x) = v"
      and "g \<noteq> ''__proto__''"
  shows "obj_get (foldl (\<lambda>res (groupName, terms). obj_assign res groupName (F terms)) res0 groups) g
           = Some v"
  using assms
proof (induction groups rule: rev_induct)
  case Nil
  then show ?case by simp
next
  case (snoc x xs)
  obtain h ts where x: "x = (h, ts)" by (cases x)
  show ?case
  proof (cases "h = g")
    case True
    with snoc.prems x have "F ts = v" by simp
    with True x snoc.prems(3) show ?thesis
      by (simp add: obj_assign_def obj_get_def)
  next
    case False
    with snoc.prems x have "(g, tms) \<in> set xs" by auto
    moreover from snoc.prems have "\<forall>x \<in> set xs. fst x = g \<longrightarrow> F (snd x) = v" by simp
    ultimately have "obj_get (foldl (\<lambda>res (groupName, terms). obj_assign res groupName (F terms)) res0 xs) g = Some v"
      using snoc.IH snoc.prems(3) by blast
    with False x snoc.prems(3) show ?thesis
      by (simp add: obj_assign_def obj_get_def)
  qed
qed

text \<open>
  Read back from the returned object: for the groups the loader produces, where the label
  fixes the alternatives, every label other than \<open>__proto__\<close> holds the sum for its group.
\<close>

lemma loaded_group_count:
  assumes "readSearchTerms env termsFile = Some termGroups"
      and "readFile env filepath = Inr content"
      and "(groupName, terms) \<in> set termGroups"
      and "groupName \<noteq> ''__proto__''"
  shows "\<exists>results. countOccurrences env filepath termGroups = Some results
       \<and> obj_get results groupName =
           Some (sum_list (map (whole_word_count (toLowerCase content)) terms))"
proof -
  from assms(1) obtain c where
    "termGroups = map (\<lambda>line. (line, map trim (str_split slash line)))
                (filter (\<lambda>line. line \<noteq> []) (map trim (str_split newline c)))"
    by (auto simp: readSearchTerms_def split: sum.splits)
  then have det: "\<forall>x \<in> set termGroups. snd x = map trim (str_split slash (fst x))"
    by auto
  with assms(3) have "terms = map trim (str_split slash groupName)"
    by fastforce
  with det have "\<forall>x \<in> set termGroups. fst x = groupName \<longrightarrow>
      sum_list (map (whole_word_count (toLowerCase content)) (snd x))
      = sum_list (map (whole_word_count (toLowerCase content)) terms)"
    by simp
  from foldl_assign_lookup[OF assms(3) this assms(4)] assms(2) show ?thesis
    by (simp add: countOccurrences_readable)
qed

text \<open>
  The count of one alternative on its own is what the counter itself gives to a group
  made of that alternative alone.
\<close>

lemma single_alternative_count:
  assumes "readFile env filepath = Inr content" and "groupName \<noteq> ''__proto__''"
  shows "\<exists>results. countOccurrences env filepath [(groupName, [alt])] = Some results
       \<and> obj_get results groupName = Some (whole_word_count (toLowerCase content) alt)"
  using assms by (simp add: countOccurrences_readable obj_assign_def obj_get_def)

lemma whole_word_count_lower_term:
  "whole_word_count text (toLowerCase alt) = whole_word_count text alt"
  by (simp add: whole_word_count_def toLowerCase_idem)



section \<open>What the enumerator returns\<close>

text \<open>
  Since the conversion of a promise to a boolean is always true, the filter of the
  directory branch removes nothing: every entry of the directory is returned.
\<close>

lemma getFilesToProcess_cases:
  "getFilesToProcess env inputPath =
     (case stat env inputPath of
        Inr IsFile \<Rightarrow> [inputPath]
      | Inr IsDirectory \<Rightarrow>
          (case readdir env inputPath of
             Inr files \<Rightarrow> js_sort (map (path_join env inputPath) files)
           | Inl error \<Rightarrow> [])
      | _ \<Rightarrow> [])"
proof -
  have "ToBoolean p" for p :: "bool promise"
    by (cases p) simp_all
  then show ?thesis
    by (auto simp: getFilesToProcess_def Let_def split: sum.splits stats.splits)
qed

section \<open>The claims\<close>

subsection \<open>C1: the count of a group is the sum over its alternatives\<close>

text \<open>
  C1. For every list of term groups and every text, the count that countOccurrences
  assigns to a group is the sum, over the alternatives of the group, of the whole-word
  occurrences of each alternative counted on its own: the object returned is the result
  of the assignments \<open>results[groupName] = sum\<close> made in the order of the groups. In
  particular the group \<open>a/b\<close> with the alternatives \<open>a\<close> and \<open>b\<close> gets the count of \<open>a\<close>
  plus the count of \<open>b\<close>; nothing is removed where occurrences of the two overlap.
\<close>

theorem group_count_is_sum_over_alternatives:
  assumes "readFile env filepath = Inr content"
  shows "countOccurrences env filepath termGroups =
           Some (foldl (\<lambda>results (groupName, terms).
                   obj_assign results groupName
                     (sum_list (map (whole_word_count (toLowerCase content)) terms)))
                 Map.empty termGroups)
       \<and> (\<exists>results.
             countOccurrences env filepath [(a @ [slash] @ b, [a, b])] = Some results
           \<and> obj_get results (a @ [slash] @ b) =
               Some (whole_word_count (toLowerCase content) a
                     + whole_word_count (toLowerCase content) b))"
proof -
  have "slash \<notin> set ''__proto__''"
    by (simp add: slash_def)
  then have "a @ [slash] @ b \<noteq> ''__proto__''"
    by (metis in_set_conv_decomp append_Cons append_Nil)
  then show ?thesis
    using assms by (simp add: countOccurrences_readable obj_assign_def obj_get_def)
qed

text \<open>
  In \<open>new york, new jersey\<close> the alternative \<open>new\<close> occurs twice and \<open>new york\<close> once, the
  latter at a place where \<open>new\<close> occurs as well; the group \<open>new/new york\<close> counts 3.
\<close>

theorem group_count_is_sum_over_alternatives_witness:
  "readFile york_env ''notes.txt'' = Inr ''new york, new jersey''
   \<and> (\<exists>results.
         countOccurrences york_env ''notes.txt'' [(''new/new york'', [''new'', ''new york''])]
           = Some results
       \<and> obj_get results ''new/new york'' = Some 3)"
proof -
  have r: "readFile york_env ''notes.txt'' = Inr ''new york, new jersey''"
    by (simp add: york_env_def sample_env_def)
  have c1: "whole_word_count (toLowerCase ''new york, new jersey'') ''new'' = 2"
    by code_simp
  have c2: "whole_word_count (toLowerCase ''new york, new jersey'') ''new york'' = 1"
    by code_simp
  from group_count_is_sum_over_alternatives[OF r, of "[]" "''new''" "''new york''"]
  show ?thesis
    using r c1 c2 by (simp add: slash_def)
qed

subsection \<open>C2: a term with metacharacters\<close>




subsection \<open>C3: the bare term inside a longer token\<close>

text \<open>
  C3, as the specification states it, gives the count 0 for the group \<open>c\<close> and a text that
  is the token \<open>c++\<close>. The counter does not return 0 there.
\<close>

theorem c_in_cpp_count_zero_counterexample:
  "\<not> (\<exists>results.
        countOccurrences cpp_env ''token.txt'' [(''c'', [''c''])] = Some results
      \<and> obj_get results ''c'' = Some 0)"
proof -
  have "map_option (\<lambda>results. obj_get results ''c'')
          (countOccurrences cpp_env ''token.txt'' [(''c'', [''c''])]) = Some (Some 1)"
    by code_simp
  then show ?thesis
    by auto
qed

text \<open>
  C3, as amended. For the single-alternative group \<open>c\<close> scanned against a text that holds
  only the token \<open>c++\<close>, countOccurrences returns the count 1 for the group: \<open>+\<close> is not a
  word character, so a word boundary follows the \<open>c\<close>, and the bare term is a whole-word
  match inside the token.
\<close>

theorem c_in_cpp_counts_once:
  "(\<exists>results.
      countOccurrences cpp_env ''token.txt'' [(''c'', [''c''])] = Some results
    \<and> obj_get results ''c'' = Some 1)
   \<and> match_from (whole_word_rule ''c'') None ''c++'' = [''c'']
   \<and> at_boundary (Some CHR ''c'') ''++''"
proof -
  have "map_option (\<lambda>results. obj_get results ''c'')
          (countOccurrences cpp_env ''token.txt'' [(''c'', [''c''])]) = Some (Some 1)"
    by code_simp
  moreover have "match_from (whole_word_rule ''c'') None ''c++'' = [''c'']"
    by code_simp
  moreover have "at_boundary (Some CHR ''c'') ''++''"
    by code_simp
  ultimately show ?thesis
    by auto
qed

subsection \<open>C4: the cat example\<close>

text \<open>
  C4. The terms file with the lines \<open>cat\<close> and \<open>cat/cats\<close> loads as two groups. For the
  text \<open>the cat sat. the cat ran! cats everywhere.\<close> countOccurrences returns 2 for the
  group \<open>cat\<close> (the plural \<open>cats\<close> is no whole-word match of \<open>cat\<close>) and 3 for the group
  \<open>cat/cats\<close> (two matches of \<open>cat\<close> and one of \<open>cats\<close>). The file with the original
  capitals gets the same counts.
\<close>

theorem cat_example:
  "readSearchTerms cat_env ''terms.txt''
     = Some [(''cat'', [''cat'']), (''cat/cats'', [''cat'', ''cats''])]
   \<and> (\<exists>results.
         countOccurrences cat_env ''lower.txt''
           [(''cat'', [''cat'']), (''cat/cats'', [''cat'', ''cats''])] = Some results
       \<and> obj_get results ''cat'' = Some 2 \<and> obj_get results ''cat/cats'' = Some 3)
   \<and> (\<exists>results.
         countOccurrences cat_env ''mixed.txt''
           [(''cat'', [''cat'']), (''cat/cats'', [''cat'', ''cats''])] = Some results
       \<and> obj_get results ''cat'' = Some 2 \<and> obj_get results ''cat/cats'' = Some 3)
   \<and> match_from (whole_word_rule ''cat'') None ''the cat sat. the cat ran! cats everywhere.''
       = [''cat'', ''cat'']
   \<and> match_from (whole_word_rule ''cats'') None ''the cat sat. the cat ran! cats everywhere.''
       = [''cats'']"
proof -
  have "readSearchTerms cat_env ''terms.txt''
      = Some [(''cat'', [''cat'']), (''cat/cats'', [''cat'', ''cats''])]"
    by code_simp
  moreover have "map_option (\<lambda>results. (obj_get results ''cat'', obj_get results ''cat/cats''))
          (countOccurrences cat_env ''lower.txt''
             [(''cat'', [''cat'']), (''cat/cats'', [''cat'', ''cats''])])
        = Some (Some 2, Some 3)"
    by code_simp
  moreover have "map_option (\<lambda>results. (obj_get results ''cat'', obj_get results ''cat/cats''))
          (countOccurrences cat_env ''mixed.txt''
             [(''cat'', [''cat'']), (''cat/cats'', [''cat'', ''cats''])])
        = Some (Some 2, Some 3)"
    by code_simp
  moreover have "match_from (whole_word_rule ''cat'') None
        ''the cat sat. the cat ran! cats everywhere.'' = [''cat'', ''cat'']"
    by code_simp
  moreover have "match_from (whole_word_rule ''cats'') None
        ''the cat sat. the cat ran! cats everywhere.'' = [''cats'']"
    by code_simp
  ultimately show ?thesis
    by auto
qed

subsection \<open>C5: trailing punctuation\<close>


subsection \<open>C6: what the loader produces\<close>

text \<open>
  C6. The loader splits the content of the terms file at the newlines (the pieces joined
  with newlines give the content back, and no piece holds a newline), trims every line
  and drops the lines that are empty after trimming. Every line left gives one group, in
  file order: its label is the trimmed line, not empty, and its alternatives are the
  trimmed pieces of the label split at the slashes. In particular the content
  \<open>cat\n\ndog\n\<close> gives exactly the two groups \<open>cat\<close> and \<open>dog\<close>, in that order.
\<close>

theorem readSearchTerms_groups:
  assumes "readFile env termsFilepath = Inr content"
  shows "\<exists>groups. readSearchTerms env termsFilepath = Some groups
       \<and> map fst groups = filter (\<lambda>line. line \<noteq> []) (map trim (str_split newline content))
       \<and> (\<forall>g \<in> set groups. fst g \<noteq> [] \<and> trim (fst g) = fst g
             \<and> snd g = map trim (str_split slash (fst g)))
       \<and> join_with newline (str_split newline content) = content
       \<and> (\<forall>line \<in> set (str_split newline content). newline \<notin> set line)
       \<and> readSearchTerms blank_lines_env ''terms.txt''
           = Some [(''cat'', [''cat'']), (''dog'', [''dog''])]"
proof -
  let ?lines = "filter (\<lambda>line. line \<noteq> []) (map trim (str_split newline content))"
  let ?groups = "map (\<lambda>line. (line, map trim (str_split slash line))) ?lines"
  have "readSearchTerms env termsFilepath = Some ?groups"
    using assms by (simp add: readSearchTerms_def)
  moreover have "map fst ?groups = ?lines"
    by (simp add: comp_def)
  moreover have "\<forall>g \<in> set ?groups. fst g \<noteq> [] \<and> trim (fst g) = fst g
             \<and> snd g = map trim (str_split slash (fst g))"
    by (auto simp: trim_idem)
  moreover have "readSearchTerms blank_lines_env ''terms.txt''
           = Some [(''cat'', [''cat'']), (''dog'', [''dog''])]"
    by code_simp
  ultimately show ?thesis
    using join_str_split str_split_no_sep by blast
qed

text \<open>
  A terms file with white space around a line and around an alternative, a line of
  blanks, and a line with an empty alternative.
\<close>

theorem readSearchTerms_groups_witness:
  "readFile blank_lines_env ''spaced.txt''
     = Inr ('' Cat / cats '' @ [newline] @ ''   '' @ [newline] @ ''a//b'')
   \<and> readSearchTerms blank_lines_env ''spaced.txt''
       = Some [(''Cat / cats'', [''Cat'', ''cats'']), (''a//b'', [''a'', [], ''b''])]"
proof -
  have r: "readFile blank_lines_env ''spaced.txt''
     = Inr ('' Cat / cats '' @ [newline] @ ''   '' @ [newline] @ ''a//b'')"
    by (simp add: blank_lines_env_def sample_env_def)
  from readSearchTerms_groups[OF r]
  obtain groups where g: "readSearchTerms blank_lines_env ''spaced.txt'' = Some groups"
    and labels: "map fst groups = filter (\<lambda>line. line \<noteq> [])
          (map trim (str_split newline
             ('' Cat / cats '' @ [newline] @ ''   '' @ [newline] @ ''a//b'')))"
    and alts: "\<forall>g \<in> set groups. snd g = map trim (str_split slash (fst g))"
    by blast
  have "filter (\<lambda>line. line \<noteq> [])
          (map trim (str_split newline
             ('' Cat / cats '' @ [newline] @ ''   '' @ [newline] @ ''a//b'')))
        = [''Cat / cats'', ''a//b'']"
    by code_simp
  with labels have "map fst groups = [''Cat / cats'', ''a//b'']"
    by simp
  then obtain x y where xy: "groups = [(''Cat / cats'', x), (''a//b'', y)]"
    by auto
  have "map trim (str_split slash ''Cat / cats'') = [''Cat'', ''cats'']"
    by code_simp
  moreover have "map trim (str_split slash ''a//b'') = [''a'', [], ''b'']"
    by code_simp
  ultimately have
    "groups = [(''Cat / cats'', [''Cat'', ''cats'']), (''a//b'', [''a'', [], ''b''])]"
    using alts xy by simp
  with g r show ?thesis
    by simp
qed

subsection \<open>C7: no group without alternatives\<close>

text \<open>
  C7. Whatever the terms file holds, every group the loader produces has at least one
  alternative: a label with \<open>n\<close> slashes has \<open>n + 1\<close> alternatives. \<open>main\<close> hands the
  loader's list to the counter as it is, so this holds for every group the counter
  consumes.
\<close>

theorem alternatives_never_empty:
  assumes "readSearchTerms env termsFilepath = Some groups"
  shows "\<forall>g \<in> set groups. snd g \<noteq> [] \<and> length (snd g) = Suc (count_list (fst g) slash)"
proof -
  from assms obtain content where
    "groups = map (\<lambda>line. (line, map trim (str_split slash line)))
                (filter (\<lambda>line. line \<noteq> []) (map trim (str_split newline content)))"
    by (auto simp: readSearchTerms_def split: sum.splits)
  then have len: "\<forall>g \<in> set groups. length (snd g) = Suc (count_list (fst g) slash)"
    by (auto simp: str_split_length)
  then have "\<forall>g \<in> set groups. snd g \<noteq> []"
    by fastforce
  with len show ?thesis
    by blast
qed

theorem alternatives_never_empty_witness:
  "readSearchTerms blank_lines_env ''spaced.txt''
     = Some [(''Cat / cats'', [''Cat'', ''cats'']), (''a//b'', [''a'', [], ''b''])]
   \<and> [''Cat'', ''cats''] \<noteq> [] \<and> length [''a'', [], ''b''] = Suc (count_list ''a//b'' slash)"
proof -
  have r: "readSearchTerms blank_lines_env ''spaced.txt''
     = Some [(''Cat / cats'', [''Cat'', ''cats'']), (''a//b'', [''a'', [], ''b''])]"
    by code_simp
  from alternatives_never_empty[OF r] r show ?thesis
    by simp
qed

subsection \<open>C8: the files to process\<close>

text \<open>
  C8. The specification has the enumerator return, for a directory, only the regular
  files in it. The directory \<open>d\<close> holds the files \<open>a.txt\<close> and \<open>b.txt\<close> and the directory \<open>sub\<close>. The
  source filters with an \<open>async\<close> callback, the promise it returns counts as true, and
  \<open>d/sub\<close> stays in the result although its promise is fulfilled with false; the
  enumeration the specification describes leaves it out.
\<close>

theorem getFilesToProcess_keeps_subdirectories:
  "getFilesToProcess batch_env ''d'' = [''d/a.txt'', ''d/b.txt'', ''d/sub'']
   \<and> stat batch_env ''d/sub'' = Inr IsDirectory
   \<and> is_file_async batch_env ''d/sub'' = Fulfilled False
   \<and> regular_files_at batch_env ''d'' = [''d/a.txt'', ''d/b.txt'']"
  by code_simp

subsection \<open>C9: a file that cannot be read\<close>



subsection \<open>C10: the letter case of the content\<close>

text \<open>
  C10. The counts do not depend on the letter case of the file content: the counter
  lowercases the content itself, so a file and its lowercased form get the same result
  for every list of term groups. It lowercases every search term as well, so the case of
  the terms does not matter either.
\<close>

theorem counts_invariant_under_letter_case:
  assumes "readFile env filepath = Inr content"
      and "readFile env' filepath' = Inr (toLowerCase content)"
  shows "countOccurrences env' filepath' termGroups = countOccurrences env filepath termGroups
       \<and> countOccurrences env filepath
           (map (\<lambda>(groupName, terms). (groupName, map toLowerCase terms)) termGroups)
         = countOccurrences env filepath termGroups"
proof -
  have "foldl (\<lambda>res (groupName, terms).
               obj_assign res groupName
                 (sum_list (map (whole_word_count lc) terms)))
          res0 (map (\<lambda>(groupName, terms). (groupName, map toLowerCase terms)) termGroups)
      = foldl (\<lambda>res (groupName, terms).
               obj_assign res groupName
                 (sum_list (map (whole_word_count lc) terms)))
          res0 termGroups" for lc res0
    by (induction termGroups arbitrary: res0)
       (auto simp: whole_word_count_lower_term comp_def)
  then show ?thesis
    using assms by (simp add: countOccurrences_readable toLowerCase_idem)
qed

text \<open>The text of the cat example with its capitals, and terms written with capitals.\<close>

theorem counts_invariant_under_letter_case_witness:
  "readFile cat_env ''mixed.txt'' = Inr ''The Cat sat. The cat ran! cats everywhere.''
   \<and> readFile cat_env ''lower.txt'' = Inr ''the cat sat. the cat ran! cats everywhere.''
   \<and> countOccurrences cat_env ''lower.txt''
       [(''cat'', [''Cat'']), (''cat/cats'', [''cat'', ''CATS''])]
     = countOccurrences cat_env ''mixed.txt''
       [(''cat'', [''Cat'']), (''cat/cats'', [''cat'', ''CATS''])]"
proof -
  have m: "readFile cat_env ''mixed.txt'' = Inr ''The Cat sat. The cat ran! cats everywhere.''"
    by (simp add: cat_env_def sample_env_def)
  have l: "readFile cat_env ''lower.txt'' = Inr ''the cat sat. the cat ran! cats everywhere.''"
    by (simp add: cat_env_def sample_env_def)
  have "toLowerCase ''The Cat sat. The cat ran! cats everywhere.''
      = ''the cat sat. the cat ran! cats everywhere.''"
    by code_simp
  with l have l': "readFile cat_env ''lower.txt''
      = Inr (toLowerCase ''The Cat sat. The cat ran! cats everywhere.'')"
    by simp
  from counts_invariant_under_letter_case[OF m l'] m l show ?thesis
    by blast
qed

end
